theory Spec2Isabelle
  imports Main "HOL-Library.Word"
begin

section \<open>The semacode extension: data model\<close>

text \<open>
  The C extension \<open>ext/semacode.c\<close> keeps one \<open>semacode_t\<close> structure per Ruby
  object and manages two malloc'ed buffers through it. The properties proved
  here are about ownership of these buffers, so memory is modelled explicitly: a store of
  blocks addressed by natural numbers, a log of the blocks handed to \<open>free\<close>,
  and every undefined behaviour of C (null dereference, access to a released
  block, releasing twice, access past the end of a block) as an error value.
\<close>

type_synonym c_int = "32 word"
  \<comment> \<open>C \<open>int\<close>: read with \<open>sint\<close>, arithmetic wraps\<close>

type_synonym addr = nat
  \<comment> \<open>a pointer or a Ruby \<open>VALUE\<close>; address 0 is the null pointer\<close>

abbreviation (input) NULL :: addr where
  "NULL \<equiv> 0"

abbreviation (input) NUL :: char where
  "NUL \<equiv> CHR 0x00"

text \<open>\<open>typedef struct semacode_t\<close> of \<open>semacode.h\<close>, field for field.\<close>

record semacode_t =
  width :: c_int
  height :: c_int
  raw_encoded_length :: c_int
  symbol_capacity :: c_int
  ecc_bytes :: c_int
  encoding :: addr
  data :: addr

text \<open>
  What a block of memory holds. Besides character buffers and the structure,
  the Ruby objects the extension touches are blocks too: a String with its
  \<open>RSTRING_LEN\<close> and \<open>RSTRING_PTR\<close>, the \<open>T_DATA\<close> object with its \<open>DATA_PTR\<close>,
  and any other object, of which only two things matter: whether it responds
  to \<open>to_s\<close>, and the String its \<open>to_str\<close> conversion yields, if any.
\<close>

datatype cell =
    Chars string
  | Semacode semacode_t
  | RString nat addr
  | RData addr
  | RObject bool "addr option"

datatype error =
    NullDeref
  | UseAfterFree addr
  | DoubleFree addr
  | WildPointer addr
  | OutOfBounds addr
  | ArgumentError
  | RuntimeError
  | TypeError

record world =
  mem :: "addr \<Rightarrow> cell option"
  released :: "addr list"
  brk :: addr
  ecc200_calls :: "(c_int \<times> string) list"
  rb_spare :: "nat \<Rightarrow> nat"

text \<open>
  \<open>mem\<close> keeps the contents of every block ever allocated (\<open>free\<close> does not
  erase memory), \<open>released\<close> lists the blocks passed to \<open>free\<close>, in order, and
  \<open>brk\<close> is the next address the allocator hands out; addresses are never
  reused. A block is live when it has contents and has not been released.
  \<open>ecc200_calls\<close> records, for every call of the external encoder, the
  length and the bytes it was given. \<open>rb_spare n\<close> is the number of bytes Ruby
  leaves behind the terminating NUL in the buffer of a String of \<open>n\<close> bytes
  that it builds; the interpreter decides it, the extension does not.
\<close>

definition live :: "world \<Rightarrow> addr \<Rightarrow> bool" where
  "live st p = (p \<noteq> NULL \<and> mem st p \<noteq> None \<and> p \<notin> set (released st))"

definition andThen :: "error + 'a \<Rightarrow> ('a \<Rightarrow> error + 'b) \<Rightarrow> error + 'b" where
  "andThen r f = (case r of Inl e \<Rightarrow> Inl e | Inr x \<Rightarrow> f x)"

subsection \<open>Memory operations\<close>

definition deref :: "addr \<Rightarrow> world \<Rightarrow> error + cell" where
  "deref p st =
     (if p = NULL then Inl NullDeref
      else if p \<in> set (released st) then Inl (UseAfterFree p)
      else case mem st p of None \<Rightarrow> Inl (WildPointer p) | Some c \<Rightarrow> Inr c)"

definition get_semacode :: "addr \<Rightarrow> world \<Rightarrow> error + semacode_t" where
  "get_semacode p st =
     andThen (deref p st)
       (\<lambda>c. case c of Semacode s \<Rightarrow> Inr s | _ \<Rightarrow> Inl (WildPointer p))"

definition get_chars :: "addr \<Rightarrow> world \<Rightarrow> error + string" where
  "get_chars p st =
     andThen (deref p st)
       (\<lambda>c. case c of Chars b \<Rightarrow> Inr b | _ \<Rightarrow> Inl (WildPointer p))"

definition store :: "addr \<Rightarrow> cell \<Rightarrow> world \<Rightarrow> world" where
  "store p c st = st\<lparr>mem := (mem st)(p \<mapsto> c)\<rparr>"

text \<open>\<open>p[i]\<close> for a \<open>char *p\<close> and a signed index.\<close>

definition read_char :: "addr \<Rightarrow> int \<Rightarrow> world \<Rightarrow> error + char" where
  "read_char p i st =
     andThen (get_chars p st)
       (\<lambda>b. if 0 \<le> i \<and> i < int (length b) then Inr (b ! nat i)
            else Inl (OutOfBounds p))"

text \<open>\<open>free(p)\<close>: nothing for the null pointer, undefined on a released block.\<close>

definition c_free :: "addr \<Rightarrow> world \<Rightarrow> error + world" where
  "c_free p st =
     (if p = NULL then Inr st
      else if p \<in> set (released st) then Inl (DoubleFree p)
      else if mem st p = None then Inl (WildPointer p)
      else Inr (st\<lparr>released := released st @ [p]\<rparr>))"

text \<open>\<open>malloc\<close> followed by initialisation; allocation is taken to succeed.\<close>

definition c_alloc :: "cell \<Rightarrow> world \<Rightarrow> addr \<times> world" where
  "c_alloc c st = (brk st, st\<lparr>mem := (mem st)(brk st \<mapsto> c), brk := Suc (brk st)\<rparr>)"

text \<open>The C string that starts at the beginning of a buffer, and \<open>strlen\<close>.\<close>

definition c_string :: "string \<Rightarrow> string" where
  "c_string b = takeWhile (\<lambda>c. c \<noteq> NUL) b"

definition strlen :: "string \<Rightarrow> nat option" where
  "strlen b = (if NUL \<in> set b then Some (length (c_string b)) else None)"

section \<open>ViewBuilder: \<open>semacode_grid\<close> and \<open>semacode_to_s\<close>\<close>

text \<open>
  The inner loop of \<open>semacode_grid\<close>:
  \<^verbatim>\<open>for (x = 0; x < w; x++) { if(semacode->data[y * w + x]) push true else push false }\<close>
  The index is computed in \<open>int\<close> arithmetic and read as a signed offset.
\<close>

function grid_row :: "world \<Rightarrow> addr \<Rightarrow> c_int \<Rightarrow> c_int \<Rightarrow> c_int \<Rightarrow> bool list \<Rightarrow> error + bool list" where
  "grid_row st d w y x ary =
     (if x <s w then
        (case read_char d (sint (y * w + x)) st of
           Inl e \<Rightarrow> Inl e
         | Inr c \<Rightarrow> grid_row st d w y (x + 1) (ary @ [c \<noteq> NUL]))
      else Inr ary)"
  by pat_completeness auto

lemma sint_succ:
  fixes x w :: c_int
  assumes "x <s w"
  shows "sint (x + 1) = sint x + 1"
proof -
  have "sint x < sint w" using assms by (simp add: word_sless_alt)
  moreover have "sint w < 2 ^ 31" using sint_lt [of w] by simp
  moreover have "- (2 ^ 31) \<le> sint x" using sint_ge [of x] by simp
  ultimately have "signed_take_bit 31 (sint x + 1) = sint x + 1"
    by (intro signed_take_bit_int_eq_self) simp_all
  then show ?thesis by (simp add: sint_word_ariths)
qed

lemma sint_pred:
  fixes y :: c_int
  assumes "0 \<le>s y"
  shows "sint (y - 1) = sint y - 1"
proof -
  have "0 \<le> sint y" using assms by (simp add: word_sle_eq)
  moreover have "sint y < 2 ^ 31" using sint_lt [of y] by simp
  ultimately have "signed_take_bit 31 (sint y - 1) = sint y - 1"
    by (intro signed_take_bit_int_eq_self) simp_all
  then show ?thesis by (simp add: sint_word_ariths)
qed

termination grid_row
  by (relation "measure (\<lambda>(st, d, w, y, x, ary). nat (sint w - sint x))")
     (simp_all add: sint_succ word_sless_alt)

declare grid_row.simps [simp del]

text \<open>
  The outer loop,
  \<^verbatim>\<open>for (y = h - 1; y >= 0; y--) { ary = rb_ary_new2(w); ...; rb_ary_push(ret, ary); }\<close>
  \<open>rb_ary_new2\<close> raises ArgumentError for a negative capacity.
\<close>

function grid_rows :: "world \<Rightarrow> addr \<Rightarrow> c_int \<Rightarrow> c_int \<Rightarrow> bool list list \<Rightarrow> error + bool list list" where
  "grid_rows st d w y ret =
     (if 0 \<le>s y then
        (if w <s 0 then Inl ArgumentError
         else case grid_row st d w y 0 [] of
           Inl e \<Rightarrow> Inl e
         | Inr ary \<Rightarrow> grid_rows st d w (y - 1) (ret @ [ary]))
      else Inr ret)"
  by pat_completeness auto

termination grid_rows
  by (relation "measure (\<lambda>(st, d, w, y, ret). nat (sint y + 1))")
     (simp_all add: sint_pred word_sle_eq)

declare grid_rows.simps [simp del]

definition semacode_grid :: "addr \<Rightarrow> world \<Rightarrow> error + bool list list" where
  "semacode_grid semacode st =
     andThen (get_semacode semacode st)
       (\<lambda>s. let w = width s; h = height s in
            if h <s 0 then Inl ArgumentError
            else grid_rows st (data s) w (h - 1) [])"

text \<open>
  \<open>semacode_to_s\<close>: the same two loops, appending \<open>"1"\<close>, \<open>"0"\<close> and \<open>","\<close> to
  a string. The result \<open>None\<close> is \<open>Qnil\<close>.
\<close>

function str_row :: "world \<Rightarrow> addr \<Rightarrow> c_int \<Rightarrow> c_int \<Rightarrow> c_int \<Rightarrow> string \<Rightarrow> error + string" where
  "str_row st d w y x str =
     (if x <s w then
        (case read_char d (sint (y * w + x)) st of
           Inl e \<Rightarrow> Inl e
         | Inr c \<Rightarrow> str_row st d w y (x + 1) (str @ (if c \<noteq> NUL then ''1'' else ''0'')))
      else Inr str)"
  by pat_completeness auto

termination str_row
  by (relation "measure (\<lambda>(st, d, w, y, x, str). nat (sint w - sint x))")
     (simp_all add: sint_succ word_sless_alt)

declare str_row.simps [simp del]

function str_rows :: "world \<Rightarrow> addr \<Rightarrow> c_int \<Rightarrow> c_int \<Rightarrow> string \<Rightarrow> error + string" where
  "str_rows st d w y str =
     (if 0 \<le>s y then
        (case str_row st d w y 0 str of
           Inl e \<Rightarrow> Inl e
         | Inr str' \<Rightarrow> str_rows st d w (y - 1) (str' @ '',''))
      else Inr str)"
  by pat_completeness auto

termination str_rows
  by (relation "measure (\<lambda>(st, d, w, y, str). nat (sint y + 1))")
     (simp_all add: sint_pred word_sle_eq)

declare str_rows.simps [simp del]

text \<open>\<open>Data_Get_Struct(self, semacode_t, semacode)\<close>: the \<open>DATA_PTR\<close> of \<open>self\<close>.\<close>

definition Data_Get_Struct :: "addr \<Rightarrow> world \<Rightarrow> error + addr" where
  "Data_Get_Struct self st =
     andThen (deref self st)
       (\<lambda>c. case c of RData p \<Rightarrow> Inr p | _ \<Rightarrow> Inl TypeError)"

definition semacode_to_s :: "addr \<Rightarrow> world \<Rightarrow> error + string option" where
  "semacode_to_s self st =
     andThen (Data_Get_Struct self st)
       (\<lambda>semacode.
          if semacode = NULL then Inr None
          else andThen (get_semacode semacode st)
            (\<lambda>s. if data s = NULL then Inr None
                 else andThen (str_rows st (data s) (width s) (height s - 1) '''') (\<lambda>str. Inr (Some str))))"

section \<open>SymbolStore: \<open>encode_string\<close> and its callers\<close>

text \<open>
  The encoder of \<open>iec16022ecc200.h\<close> is not part of the extension; it is a
  parameter of the model. \<open>iec16022init\<close> receives the current width and
  height and the message as a C string and yields the chosen width and height.
  \<open>iec16022ecc200\<close> receives width, height, the length and that many bytes
  of the message, and yields the values it leaves in its output parameters:
  a freshly allocated encoding buffer or none, a freshly allocated grid or none
  (the null pointer it returns on failure).
\<close>

record ecc200_result =
  r_width :: c_int
  r_height :: c_int
  r_encoding :: "string option"
  r_raw_encoded_length :: c_int
  r_symbol_capacity :: c_int
  r_ecc_bytes :: c_int
  r_grid :: "string option"

record iec16022 =
  iec16022init :: "c_int \<Rightarrow> c_int \<Rightarrow> string \<Rightarrow> c_int \<times> c_int"
  iec16022ecc200 :: "c_int \<Rightarrow> c_int \<Rightarrow> c_int \<Rightarrow> string \<Rightarrow> ecc200_result"

definition put_semacode :: "addr \<Rightarrow> semacode_t \<Rightarrow> world \<Rightarrow> error + world" where
  "put_semacode p s st =
     andThen (get_semacode p st) (\<lambda>_. Inr (store p (Semacode s) st))"

text \<open>\<open>bzero(semacode, sizeof(semacode_t))\<close>: every field cleared.\<close>

definition zero_semacode :: semacode_t where
  "zero_semacode =
     \<lparr>width = 0, height = 0, raw_encoded_length = 0, symbol_capacity = 0,
      ecc_bytes = 0, encoding = NULL, data = NULL\<rparr>"

text \<open>
  \<open>strcat(dest, src)\<close>: \<open>src\<close> is written over the first NUL of \<open>dest\<close>,
  followed by a new NUL; the bytes behind them stay. Running past the end of
  the block is an error.
\<close>

definition strcat_buffer :: "string \<Rightarrow> string \<Rightarrow> string" where
  "strcat_buffer b src =
     take (length (c_string b)) b @ src @ NUL # drop (length (c_string b) + length src + 1) b"

definition c_strcat :: "addr \<Rightarrow> string \<Rightarrow> world \<Rightarrow> error + world" where
  "c_strcat dest src st =
     andThen (get_chars dest st)
       (\<lambda>b. case strlen b of
              None \<Rightarrow> Inl (OutOfBounds dest)
            | Some k \<Rightarrow>
                if k + length src < length b
                then Inr (store dest (Chars (strcat_buffer b src)) st)
                else Inl (OutOfBounds dest))"

text \<open>\<open>iec16022init(&semacode->width, &semacode->height, message)\<close>.\<close>

definition call_iec16022init :: "iec16022 \<Rightarrow> addr \<Rightarrow> addr \<Rightarrow> world \<Rightarrow> error + world" where
  "call_iec16022init lib semacode message st =
     andThen (get_semacode semacode st)
       (\<lambda>s. andThen (get_chars message st)
          (\<lambda>b. case strlen b of
                 None \<Rightarrow> Inl (OutOfBounds message)
               | Some _ \<Rightarrow>
                   (case iec16022init lib (width s) (height s) (c_string b) of
                      (w, h) \<Rightarrow> Inr (store semacode (Semacode (s\<lparr>width := w, height := h\<rparr>)) st))))"

text \<open>
  \<open>semacode->data = iec16022ecc200(&width, &height, &encoding, message_length,
  message, &raw_encoded_length, &symbol_capacity, &ecc_bytes)\<close>.
\<close>

definition call_iec16022ecc200 :: "iec16022 \<Rightarrow> addr \<Rightarrow> c_int \<Rightarrow> addr \<Rightarrow> world \<Rightarrow> error + world" where
  "call_iec16022ecc200 lib semacode message_length message st =
     andThen (get_semacode semacode st)
       (\<lambda>s. andThen (get_chars message st)
          (\<lambda>b. if int (length b) < sint message_length then Inl (OutOfBounds message)
               else
                 let bytes = take (nat (sint message_length)) b;
                     r = iec16022ecc200 lib (width s) (height s) message_length bytes;
                     st1 = st\<lparr>ecc200_calls := ecc200_calls st @ [(message_length, bytes)]\<rparr>;
                     (e, st2) = (case r_encoding r of
                                   None \<Rightarrow> (encoding s, st1)
                                 | Some c \<Rightarrow> c_alloc (Chars c) st1);
                     (g, st3) = (case r_grid r of
                                   None \<Rightarrow> (NULL, st2)
                                 | Some c \<Rightarrow> c_alloc (Chars c) st2)
                 in Inr (store semacode
                           (Semacode \<lparr>width = r_width r, height = r_height r,
                              raw_encoded_length = r_raw_encoded_length r,
                              symbol_capacity = r_symbol_capacity r,
                              ecc_bytes = r_ecc_bytes r, encoding = e, data = g\<rparr>) st3)))"

text \<open>
  \<open>encode_string\<close>. The result is the pointer it returns, \<open>NULL\<close> or
  \<open>semacode\<close>, with the memory it leaves.
\<close>

definition encode_string :: "iec16022 \<Rightarrow> addr \<Rightarrow> c_int \<Rightarrow> addr \<Rightarrow> world \<Rightarrow> error + (addr \<times> world)" where
  "encode_string lib semacode message_length message st =
     (if semacode = NULL \<or> message = NULL \<or> message_length <s 1 then Inr (NULL, st)
      else
        andThen (get_semacode semacode st) (\<lambda>s.
        andThen (if data s \<noteq> NULL then c_free (data s) st else Inr st) (\<lambda>st1.
        andThen (get_semacode semacode st1) (\<lambda>s1.
        andThen (if encoding s1 \<noteq> NULL then c_free (encoding s1) st1 else Inr st1) (\<lambda>st2.
        andThen (put_semacode semacode zero_semacode st2) (\<lambda>st3.
        andThen (c_strcat message '' '' st3) (\<lambda>st4.
        andThen (call_iec16022init lib semacode message st4) (\<lambda>st5.
        andThen (call_iec16022ecc200 lib semacode (message_length + 1) message st5) (\<lambda>st6.
        Inr (semacode, st6))))))))))"

subsection \<open>Ruby values\<close>

text \<open>\<open>rb_respond_to(message, rb_intern("to_s"))\<close>.\<close>

definition responds_to_s :: "addr \<Rightarrow> world \<Rightarrow> error + bool" where
  "responds_to_s v st =
     andThen (deref v st)
       (\<lambda>c. case c of
              RString _ _ \<Rightarrow> Inr True
            | RData _ \<Rightarrow> Inr True
            | RObject r _ \<Rightarrow> Inr r
            | _ \<Rightarrow> Inl TypeError)"

text \<open>
  \<open>StringValueLen(message)\<close> and \<open>StringValuePtr(message)\<close>: a String is taken
  as it is, another object is replaced by the String its \<open>to_str\<close> yields,
  and TypeError is raised when it yields none. For an encoder object \<open>to_str\<close>
  is \<open>semacode_to_s\<close> (\<open>Init_semacode_native\<close> registers it under that name):
  its string is made into a new String, and \<open>nil\<close> is no String. The result
  is the length and the pointer, with the memory after the conversion. The
  length, a \<open>long\<close>, is converted to the \<open>int\<close> parameter of \<open>encode_string\<close>
  by the callers. \<open>StringValuePtr\<close> is the macro of \<open>ruby.h\<close>; the definition
  in \<open>semacode.h\<close> stands under \<open>#ifndef StringValuePtr\<close> and is not used.
\<close>

definition StringValue :: "addr \<Rightarrow> world \<Rightarrow> error + ((nat \<times> addr) \<times> world)" where
  "StringValue v st =
     andThen (deref v st)
       (\<lambda>c. case c of
              RString n p \<Rightarrow> Inr ((n, p), st)
            | RObject _ (Some v') \<Rightarrow>
                andThen (deref v' st)
                  (\<lambda>c'. case c' of RString n p \<Rightarrow> Inr ((n, p), st) | _ \<Rightarrow> Inl TypeError)
            | RData _ \<Rightarrow>
                andThen (semacode_to_s v st)
                  (\<lambda>r. case r of
                         None \<Rightarrow> Inl TypeError
                       | Some str \<Rightarrow>
                           (case c_alloc (Chars (str @ NUL # replicate (rb_spare st (length str)) NUL)) st of
                              (ptr, st1) \<Rightarrow>
                                (case c_alloc (RString (length str) ptr) st1 of
                                   (_, st2) \<Rightarrow> Inr ((length str, ptr), st2))))
            | _ \<Rightarrow> Inl TypeError)"

text \<open>\<open>Data_Make_Struct\<close> in \<open>semacode_allocate\<close>: a cleared structure and its object.\<close>

definition semacode_allocate :: "world \<Rightarrow> addr \<times> world" where
  "semacode_allocate st =
     (case c_alloc (Semacode zero_semacode) st of
        (semacode, st1) \<Rightarrow> c_alloc (RData semacode) st1)"

definition semacode_init :: "iec16022 \<Rightarrow> addr \<Rightarrow> addr \<Rightarrow> world \<Rightarrow> error + (addr \<times> world)" where
  "semacode_init lib self message st =
     andThen (responds_to_s message st) (\<lambda>r.
       if \<not> r then Inl RuntimeError
       else
         andThen (Data_Get_Struct self st) (\<lambda>semacode.
         andThen (StringValue message st) (\<lambda>((len, ptr), st0).
         andThen (encode_string lib semacode (word_of_nat len) ptr st0) (\<lambda>(_, st1).
         Inr (self, st1)))))"

text \<open>
  \<open>semacode_encode\<close>. The statement \<open>semacode->data == NULL;\<close> after the
  \<open>free\<close> is a comparison whose value is dropped, so nothing is stored.
\<close>

definition semacode_encode :: "iec16022 \<Rightarrow> addr \<Rightarrow> addr \<Rightarrow> world \<Rightarrow> error + (bool list list \<times> world)" where
  "semacode_encode lib self message st =
     andThen (responds_to_s message st) (\<lambda>r.
       if \<not> r then Inl RuntimeError
       else
         andThen (Data_Get_Struct self st) (\<lambda>semacode.
         andThen (get_semacode semacode st) (\<lambda>s.
         andThen (if data s \<noteq> NULL then c_free (data s) st else Inr st) (\<lambda>st1.
         andThen (StringValue message st1) (\<lambda>((len, ptr), st1').
         andThen (encode_string lib semacode (word_of_nat len) ptr st1') (\<lambda>(p, st2).
         let st3 = store self (RData p) st2 in
         andThen (semacode_grid semacode st3) (\<lambda>g.
         Inr (g, st3))))))))"

text \<open>
  \<open>semacode_free\<close>. Only \<open>free(semacode->encoding)\<close> is under the \<open>if\<close>;
  \<open>free(semacode->data)\<close> follows it unconditionally. \<open>bzero(semacode,
  sizeof(semacode))\<close> clears as many bytes as a pointer has, 4 or 8, which are
  the first one or two \<open>int\<close> fields of the structure.
\<close>

datatype data_model = ILP32 | LP64

fun sizeof_pointer :: "data_model \<Rightarrow> nat" where
  "sizeof_pointer ILP32 = 4"
| "sizeof_pointer LP64 = 8"

definition bzero_ints :: "nat \<Rightarrow> semacode_t \<Rightarrow> semacode_t" where
  "bzero_ints n s =
     s\<lparr>width := (if 4 \<le> n then 0 else width s),
       height := (if 8 \<le> n then 0 else height s),
       raw_encoded_length := (if 12 \<le> n then 0 else raw_encoded_length s),
       symbol_capacity := (if 16 \<le> n then 0 else symbol_capacity s),
       ecc_bytes := (if 20 \<le> n then 0 else ecc_bytes s)\<rparr>"

definition semacode_free :: "data_model \<Rightarrow> addr \<Rightarrow> world \<Rightarrow> error + world" where
  "semacode_free dm semacode st =
     (if semacode \<noteq> NULL then
        andThen (get_semacode semacode st) (\<lambda>s.
        andThen (if data s \<noteq> NULL then
                   andThen (get_semacode semacode st) (\<lambda>s'. c_free (encoding s') st)
                 else Inr st) (\<lambda>st1.
        andThen (get_semacode semacode st1) (\<lambda>s1.
        andThen (c_free (data s1) st1) (\<lambda>st2.
        andThen (get_semacode semacode st2) (\<lambda>s2.
        andThen (put_semacode semacode (bzero_ints (sizeof_pointer dm) s2) st2) (\<lambda>st3.
        c_free semacode st3))))))
      else Inr st)"

subsection \<open>Accessors\<close>

definition semacode_data :: "addr \<Rightarrow> world \<Rightarrow> error + bool list list option" where
  "semacode_data self st =
     andThen (Data_Get_Struct self st) (\<lambda>semacode.
     andThen (get_semacode semacode st) (\<lambda>s.
       if data s = NULL then Inr None
       else andThen (semacode_grid semacode st) (\<lambda>g. Inr (Some g))))"

text \<open>
  \<open>rb_str_new2(ptr)\<close> of the Ruby API raises ArgumentError for a null pointer
  and otherwise makes a String of the bytes up to the first NUL.
\<close>

definition rb_str_new2 :: "addr \<Rightarrow> world \<Rightarrow> error + string" where
  "rb_str_new2 ptr st =
     (if ptr = NULL then Inl ArgumentError
      else andThen (get_chars ptr st)
        (\<lambda>b. case strlen b of None \<Rightarrow> Inl (OutOfBounds ptr) | Some _ \<Rightarrow> Inr (c_string b)))"

definition semacode_encoded :: "addr \<Rightarrow> world \<Rightarrow> error + string" where
  "semacode_encoded self st =
     andThen (Data_Get_Struct self st) (\<lambda>semacode.
     andThen (get_semacode semacode st) (\<lambda>s. rb_str_new2 (encoding s) st))"

text \<open>The integer accessors return the field as a Fixnum.\<close>

definition int_field :: "(semacode_t \<Rightarrow> c_int) \<Rightarrow> addr \<Rightarrow> world \<Rightarrow> error + c_int" where
  "int_field f self st =
     andThen (Data_Get_Struct self st) (\<lambda>semacode.
     andThen (get_semacode semacode st) (\<lambda>s. Inr (f s)))"

definition semacode_width :: "addr \<Rightarrow> world \<Rightarrow> error + c_int" where
  "semacode_width = int_field width"

definition semacode_height :: "addr \<Rightarrow> world \<Rightarrow> error + c_int" where
  "semacode_height = int_field height"

definition semacode_length :: "addr \<Rightarrow> world \<Rightarrow> error + c_int" where
  "semacode_length = int_field (\<lambda>s. height s * width s)"

definition semacode_raw_encoded_length :: "addr \<Rightarrow> world \<Rightarrow> error + c_int" where
  "semacode_raw_encoded_length = int_field raw_encoded_length"

definition semacode_symbol_size :: "addr \<Rightarrow> world \<Rightarrow> error + c_int" where
  "semacode_symbol_size = int_field symbol_capacity"

definition semacode_ecc_bytes :: "addr \<Rightarrow> world \<Rightarrow> error + c_int" where
  "semacode_ecc_bytes = int_field ecc_bytes"

section \<open>Reading the views and the caller's String\<close>

text \<open>
  The string view as the comma-separated rendering of a grid: one group of
  \<open>'1'\<close> and \<open>'0'\<close> per row, each group followed by a comma.
\<close>

definition bit_char :: "bool \<Rightarrow> char" where
  "bit_char v = (if v then CHR ''1'' else CHR ''0'')"

definition comma_rows :: "bool list list \<Rightarrow> string" where
  "comma_rows g = concat (map (\<lambda>row. map bit_char row @ '','') g)"

text \<open>
  The bytes Ruby reads as the value of a String: \<open>RSTRING_LEN\<close> bytes at
  \<open>RSTRING_PTR\<close>.
\<close>

definition RSTRING_bytes :: "addr \<Rightarrow> world \<Rightarrow> error + string" where
  "RSTRING_bytes v st =
     andThen (StringValue v st)
       (\<lambda>((n, p), st'). andThen (get_chars p st')
          (\<lambda>b. if n \<le> length b then Inr (take n b) else Inl (OutOfBounds p)))"

section \<open>States the properties are about\<close>

text \<open>
  An encoded symbol: the structure at \<open>p\<close> is live, its dimensions are at
  least 1, the number of modules fits an \<open>int\<close>, and \<open>data\<close> is a live
  buffer \<open>b\<close> of width times height bytes.
\<close>

definition encoded_symbol :: "world \<Rightarrow> addr \<Rightarrow> semacode_t \<Rightarrow> string \<Rightarrow> bool" where
  "encoded_symbol st p s b =
     (get_semacode p st = Inr s \<and> get_chars (data s) st = Inr b \<and>
      1 \<le> sint (width s) \<and> 1 \<le> sint (height s) \<and>
      sint (width s) * sint (height s) < 2 ^ 31 \<and>
      int (length b) = sint (width s) * sint (height s))"

text \<open>
  A store that owns its buffers: the structure at \<open>p\<close> is live, and each of
  \<open>data\<close> and \<open>encoding\<close> is null or a live block of its own.
\<close>

definition owns_buffers :: "world \<Rightarrow> addr \<Rightarrow> semacode_t \<Rightarrow> bool" where
  "owns_buffers st p s =
     (get_semacode p st = Inr s \<and>
      (data s = NULL \<or> live st (data s)) \<and>
      (encoding s = NULL \<or> live st (encoding s)) \<and>
      (data s = NULL \<or> data s \<noteq> encoding s) \<and>
      data s \<noteq> p \<and> encoding s \<noteq> p)"

text \<open>
  The buffer of a String of \<open>L\<close> bytes, \<open>L\<close> at least 1 and below \<open>INT_MAX\<close>:
  a live block \<open>b\<close> with the terminating NUL at index \<open>L\<close> and at least one
  more byte of room behind it.
\<close>

definition message_buffer :: "world \<Rightarrow> addr \<Rightarrow> string \<Rightarrow> nat \<Rightarrow> bool" where
  "message_buffer st msg b L =
     (get_chars msg st = Inr b \<and> 0 < L \<and> Suc L < length b \<and> b ! L = NUL \<and>
      int L + 1 < 2 ^ 31)"

text \<open>The allocator's next address and everything above it is unused.\<close>

definition wf_world :: "world \<Rightarrow> bool" where
  "wf_world st = (brk st \<noteq> NULL \<and> (\<forall>a. brk st \<le> a \<longrightarrow> mem st a = None))"

section \<open>A concrete run\<close>

text \<open>
  Memory for running the extension on concrete inputs: four Strings, each
  with its buffer holding the bytes, the terminating NUL and one spare byte,
  and one allocated encoder object. Two stand-ins take the place of the external
  encoder: one yields a fixed symbol of 2 columns and 3 rows, one fails
  (returns no grid) on every input.
\<close>

definition world0 :: world where
  "world0 = \<lparr>mem = Map.empty, released = [], brk = 1, ecc200_calls = [],
              rb_spare = (\<lambda>n. 1)\<rparr>"

definition make_string :: "string \<Rightarrow> nat \<Rightarrow> world \<Rightarrow> addr \<times> world" where
  "make_string bytes room st =
     (case c_alloc (Chars (bytes @ NUL # replicate room NUL)) st of
        (ptr, st1) \<Rightarrow> c_alloc (RString (length bytes) ptr) st1)"

definition demo_encoder :: iec16022 where
  "demo_encoder =
     \<lparr>iec16022init = (\<lambda>w h m. (2, 3)),
      iec16022ecc200 = (\<lambda>w h n m.
        \<lparr>r_width = w, r_height = h, r_encoding = Some [CHR ''a'', NUL],
         r_raw_encoded_length = n, r_symbol_capacity = 3, r_ecc_bytes = 5,
         r_grid = Some [CHR 0x01, NUL, NUL, CHR 0x01, CHR 0x01, CHR 0x01]\<rparr>)\<rparr>"

definition failing_encoder :: iec16022 where
  "failing_encoder =
     \<lparr>iec16022init = (\<lambda>w h m. (2, 3)),
      iec16022ecc200 = (\<lambda>w h n m.
        \<lparr>r_width = w, r_height = h, r_encoding = None,
         r_raw_encoded_length = 0, r_symbol_capacity = 0, r_ecc_bytes = 0,
         r_grid = None\<rparr>)\<rparr>"

text \<open>
  In \<open>scene\<close>, String 2 is \<open>"A"\<close> (buffer 1), String 4 is \<open>"B"\<close> (buffer 3),
  String 6 is the empty String (buffer 5), String 8 is the three bytes
  \<open>a\<close>, NUL, \<open>b\<close> (buffer 7); the structure is block 9 and the encoder
  object is 10. \<open>after_init\<close> is the memory after \<open>initialize("A")\<close>; there
  the encoding is block 11 and the grid is block 12.
\<close>

definition scene :: world where
  "scene =
     snd (semacode_allocate
       (snd (make_string [CHR ''a'', NUL, CHR ''b''] 1
         (snd (make_string [] 1
           (snd (make_string ''B'' 1
             (snd (make_string ''A'' 1 world0)))))))))"

definition after_init :: world where
  "after_init =
     (case semacode_init demo_encoder 10 2 scene of Inr (_, st) \<Rightarrow> st | Inl _ \<Rightarrow> scene)"

lemmas model_defs =
  andThen_def deref_def get_semacode_def get_chars_def store_def read_char_def
  c_free_def c_alloc_def c_string_def strlen_def put_semacode_def zero_semacode_def
  c_strcat_def strcat_buffer_def call_iec16022init_def call_iec16022ecc200_def encode_string_def
  responds_to_s_def StringValue_def semacode_allocate_def semacode_init_def
  semacode_encode_def semacode_free_def bzero_ints_def semacode_data_def
  rb_str_new2_def semacode_encoded_def int_field_def Data_Get_Struct_def
  semacode_grid_def semacode_to_s_def RSTRING_bytes_def
  world0_def make_string_def demo_encoder_def failing_encoder_def scene_def

section \<open>The loops of the two views\<close>

text \<open>
  Within an encoded symbol the index \<open>y * w + x\<close> does not wrap, and each
  loop yields the rows, or the characters, of the buffer from its counter on.
\<close>

lemma sint_index:
  fixes x y w :: c_int
  assumes "0 \<le> sint x" "sint x < sint w" "0 \<le> sint y" "sint y < H"
    and "sint w * H \<le> 2 ^ 31"
  shows "sint (y * w + x) = sint y * sint w + sint x"
proof -
  have w0: "0 < sint w" using assms by linarith
  have "sint y + 1 \<le> H" using assms by simp
  then have "(sint y + 1) * sint w \<le> H * sint w"
    using w0 by (intro mult_right_mono) simp_all
  then have ub: "sint y * sint w + sint w \<le> 2 ^ 31"
    using assms(5) by (simp add: algebra_simps)
  have lb: "0 \<le> sint y * sint w" using assms w0 by simp
  have "signed_take_bit 31 (sint y * sint w) = sint y * sint w"
    using lb ub w0 by (intro signed_take_bit_int_eq_self) simp_all
  then have m: "sint (y * w) = sint y * sint w"
    by (simp add: sint_word_ariths)
  have "signed_take_bit 31 (sint y * sint w + sint x) = sint y * sint w + sint x"
    using lb ub assms(1,2) by (intro signed_take_bit_int_eq_self) simp_all
  moreover have "sint (y * w + x) = signed_take_bit 31 (sint (y * w) + sint x)"
    by (simp only: sint_word_ariths) simp
  ultimately show ?thesis
    by (simp only: m)
qed

lemma grid_row_eq:
  fixes x y w :: c_int
  assumes "get_chars d st = Inr b"
    and "0 \<le> sint y" "sint y < H" "sint w * H \<le> 2 ^ 31"
    and "int (length b) = sint w * H"
  shows "0 \<le> sint x \<Longrightarrow> sint x \<le> sint w \<Longrightarrow> n = nat (sint w - sint x) \<Longrightarrow>
    grid_row st d w y x ary =
      Inr (ary @ map (\<lambda>c. b ! (nat (sint y) * nat (sint w) + c) \<noteq> NUL) [nat (sint x)..<nat (sint w)])"
proof (induction n arbitrary: x ary)
  case 0
  then have "\<not> x <s w" by (simp add: word_sless_alt)
  moreover have "nat (sint x) = nat (sint w)" using 0 by simp
  ultimately show ?case by (subst grid_row.simps) simp
next
  case (Suc n)
  then have lt: "x <s w" and lt': "sint x < sint w" by (simp_all add: word_sless_alt)
  have sx: "sint (x + 1) = sint x + 1" using lt by (rule sint_succ)
  have idx: "sint (y * w + x) = sint y * sint w + sint x"
    using Suc.prems(1) lt' assms(2,3,4) by (rule sint_index)
  have w0: "0 < sint w" using Suc.prems lt' by linarith
  have "(sint y + 1) * sint w \<le> H * sint w"
    using assms(3) w0 by (intro mult_right_mono) simp_all
  then have inb: "sint y * sint w + sint x < int (length b)"
    using assms(5) lt' by (simp add: algebra_simps)
  have nn: "0 \<le> sint y * sint w + sint x" using assms(2) w0 Suc.prems(1) by simp
  have natidx: "nat (sint y * sint w + sint x) = nat (sint y) * nat (sint w) + nat (sint x)"
    using assms(2) w0 Suc.prems(1) by (simp add: nat_add_distrib nat_mult_distrib)
  have rd: "read_char d (sint (y * w + x)) st = Inr (b ! (nat (sint y) * nat (sint w) + nat (sint x)))"
    using assms(1) inb nn by (simp add: read_char_def andThen_def idx natidx)
  have ih: "grid_row st d w y (x + 1) (ary @ [b ! (nat (sint y) * nat (sint w) + nat (sint x)) \<noteq> NUL]) =
      Inr ((ary @ [b ! (nat (sint y) * nat (sint w) + nat (sint x)) \<noteq> NUL]) @
         map (\<lambda>c. b ! (nat (sint y) * nat (sint w) + c) \<noteq> NUL) [nat (sint (x + 1))..<nat (sint w)])"
    using Suc.prems lt' by (intro Suc.IH) (simp_all add: sx)
  have up: "[nat (sint x)..<nat (sint w)] = nat (sint x) # [nat (sint (x + 1))..<nat (sint w)]"
    using lt' Suc.prems(1) by (simp add: sx upt_conv_Cons nat_add_distrib)
  show ?case
    by (subst grid_row.simps) (simp add: lt rd ih up)
qed

lemma grid_rows_eq:
  fixes y w :: c_int
  assumes "get_chars d st = Inr b"
    and "0 < sint w" "sint w * H \<le> 2 ^ 31"
    and "int (length b) = sint w * H"
  shows "- 1 \<le> sint y \<Longrightarrow> sint y < H \<Longrightarrow> n = nat (sint y + 1) \<Longrightarrow>
    grid_rows st d w y ret =
      Inr (ret @ map (\<lambda>r. map (\<lambda>c. b ! (r * nat (sint w) + c) \<noteq> NUL) [0..<nat (sint w)])
                    (rev [0..<n]))"
proof (induction n arbitrary: y ret)
  case 0
  then have "\<not> 0 \<le>s y" by (simp add: word_sle_eq)
  then show ?case by (subst grid_rows.simps) simp
next
  case (Suc n)
  then have ge: "0 \<le>s y" and ge': "0 \<le> sint y" by (simp_all add: word_sle_eq)
  have sy: "sint (y - 1) = sint y - 1" using ge by (rule sint_pred)
  have nw: "\<not> w <s 0" using assms(2) by (simp add: word_sless_alt)
  have n: "n = nat (sint y)" using Suc.prems ge' by simp
  have row: "grid_row st d w y 0 [] =
      Inr ([] @ map (\<lambda>c. b ! (nat (sint y) * nat (sint w) + c) \<noteq> NUL) [nat (sint (0::c_int))..<nat (sint w)])"
    using assms(1) ge' Suc.prems(2) assms(3,4)
    by (rule grid_row_eq) (use assms(2) in simp_all)
  have ih: "grid_rows st d w (y - 1) (ret @ [map (\<lambda>c. b ! (nat (sint y) * nat (sint w) + c) \<noteq> NUL) [0..<nat (sint w)]]) =
      Inr ((ret @ [map (\<lambda>c. b ! (nat (sint y) * nat (sint w) + c) \<noteq> NUL) [0..<nat (sint w)]]) @
        map (\<lambda>r. map (\<lambda>c. b ! (r * nat (sint w) + c) \<noteq> NUL) [0..<nat (sint w)]) (rev [0..<n]))"
    using Suc.prems ge' by (intro Suc.IH) (simp_all add: sy)
  show ?case
    by (subst grid_rows.simps) (simp add: ge nw row ih n)
qed

lemma str_row_eq:
  fixes x y w :: c_int
  assumes "get_chars d st = Inr b"
    and "0 \<le> sint y" "sint y < H" "sint w * H \<le> 2 ^ 31"
    and "int (length b) = sint w * H"
  shows "0 \<le> sint x \<Longrightarrow> sint x \<le> sint w \<Longrightarrow> n = nat (sint w - sint x) \<Longrightarrow>
    str_row st d w y x str =
      Inr (str @ map (\<lambda>c. bit_char (b ! (nat (sint y) * nat (sint w) + c) \<noteq> NUL)) [nat (sint x)..<nat (sint w)])"
proof (induction n arbitrary: x str)
  case 0
  then have "\<not> x <s w" by (simp add: word_sless_alt)
  moreover have "nat (sint x) = nat (sint w)" using 0 by simp
  ultimately show ?case by (subst str_row.simps) simp
next
  case (Suc n)
  then have lt: "x <s w" and lt': "sint x < sint w" by (simp_all add: word_sless_alt)
  have sx: "sint (x + 1) = sint x + 1" using lt by (rule sint_succ)
  have idx: "sint (y * w + x) = sint y * sint w + sint x"
    using Suc.prems(1) lt' assms(2,3,4) by (rule sint_index)
  have w0: "0 < sint w" using Suc.prems lt' by linarith
  have "(sint y + 1) * sint w \<le> H * sint w"
    using assms(3) w0 by (intro mult_right_mono) simp_all
  then have inb: "sint y * sint w + sint x < int (length b)"
    using assms(5) lt' by (simp add: algebra_simps)
  have nn: "0 \<le> sint y * sint w + sint x" using assms(2) w0 Suc.prems(1) by simp
  have natidx: "nat (sint y * sint w + sint x) = nat (sint y) * nat (sint w) + nat (sint x)"
    using assms(2) w0 Suc.prems(1) by (simp add: nat_add_distrib nat_mult_distrib)
  define v where "v = (b ! (nat (sint y) * nat (sint w) + nat (sint x)) \<noteq> NUL)"
  have rd: "read_char d (sint (y * w + x)) st = Inr (b ! (nat (sint y) * nat (sint w) + nat (sint x)))"
    using assms(1) inb nn by (simp add: read_char_def andThen_def idx natidx)
  have ap: "str @ (if v then ''1'' else ''0'') = str @ [bit_char v]"
    by (simp add: bit_char_def)
  have ih: "str_row st d w y (x + 1) (str @ [bit_char v]) =
      Inr ((str @ [bit_char v]) @
         map (\<lambda>c. bit_char (b ! (nat (sint y) * nat (sint w) + c) \<noteq> NUL)) [nat (sint (x + 1))..<nat (sint w)])"
    using Suc.prems lt' by (intro Suc.IH) (simp_all add: sx)
  have up: "[nat (sint x)..<nat (sint w)] = nat (sint x) # [nat (sint (x + 1))..<nat (sint w)]"
    using lt' Suc.prems(1) by (simp add: sx upt_conv_Cons nat_add_distrib)
  show ?case
    by (subst str_row.simps) (simp add: lt rd ih up ap v_def [symmetric] del: not_False_eq_True)
qed

lemma str_rows_eq:
  fixes y w :: c_int
  assumes "get_chars d st = Inr b"
    and "0 < sint w" "sint w * H \<le> 2 ^ 31"
    and "int (length b) = sint w * H"
  shows "- 1 \<le> sint y \<Longrightarrow> sint y < H \<Longrightarrow> n = nat (sint y + 1) \<Longrightarrow>
    str_rows st d w y str =
      Inr (str @ concat (map (\<lambda>r. map (\<lambda>c. bit_char (b ! (r * nat (sint w) + c) \<noteq> NUL)) [0..<nat (sint w)] @ '','')
                    (rev [0..<n])))"
proof (induction n arbitrary: y str)
  case 0
  then have "\<not> 0 \<le>s y" by (simp add: word_sle_eq)
  then show ?case by (subst str_rows.simps) simp
next
  case (Suc n)
  then have ge: "0 \<le>s y" and ge': "0 \<le> sint y" by (simp_all add: word_sle_eq)
  have sy: "sint (y - 1) = sint y - 1" using ge by (rule sint_pred)
  have n: "n = nat (sint y)" using Suc.prems ge' by simp
  define line where "line = map (\<lambda>c. bit_char (b ! (nat (sint y) * nat (sint w) + c) \<noteq> NUL)) [0..<nat (sint w)]"
  have row: "str_row st d w y 0 str =
      Inr (str @ map (\<lambda>c. bit_char (b ! (nat (sint y) * nat (sint w) + c) \<noteq> NUL)) [nat (sint (0::c_int))..<nat (sint w)])"
    using assms(1) ge' Suc.prems(2) assms(3,4)
    by (rule str_row_eq) (use assms(2) in simp_all)
  then have row': "str_row st d w y 0 str = Inr (str @ line)"
    by (simp add: line_def)
  have "str_rows st d w (y - 1) ((str @ line) @ '','') =
      Inr (((str @ line) @ '','') @
        concat (map (\<lambda>r. map (\<lambda>c. bit_char (b ! (r * nat (sint w) + c) \<noteq> NUL)) [0..<nat (sint w)] @ '','') (rev [0..<n])))"
    using Suc.prems ge' by (intro Suc.IH) (simp_all add: sy)
  then have ih: "str_rows st d w (y - 1) (str @ line @ '','') =
      Inr (str @ line @ '','' @
        concat (map (\<lambda>r. map (\<lambda>c. bit_char (b ! (r * nat (sint w) + c) \<noteq> NUL)) [0..<nat (sint w)] @ '','') (rev [0..<nat (sint y)])))"
    by (simp add: n)
  note ih' = ih [unfolded line_def] and row'' = row' [unfolded line_def]
  show ?case
    by (subst str_rows.simps) (simp add: ge row'' ih' n)
qed

lemma grid_of_encoded:
  assumes "encoded_symbol st p s b"
  shows "semacode_grid p st =
     Inr (map (\<lambda>r. map (\<lambda>c. b ! (r * nat (sint (width s)) + c) \<noteq> NUL) [0..<nat (sint (width s))])
            (rev [0..<nat (sint (height s))]))"
proof -
  from assms have s: "get_semacode p st = Inr s" and b: "get_chars (data s) st = Inr b"
    and w: "1 \<le> sint (width s)" and h: "1 \<le> sint (height s)"
    and wh: "sint (width s) * sint (height s) < 2 ^ 31"
    and len: "int (length b) = sint (width s) * sint (height s)"
    by (simp_all add: encoded_symbol_def)
  have nh: "\<not> height s <s 0" using h by (simp add: word_sless_alt)
  have h1: "sint (height s - 1) = sint (height s) - 1"
  proof -
    have "signed_take_bit 31 (sint (height s) - 1) = sint (height s) - 1"
      using h sint_lt [of "height s"] by (intro signed_take_bit_int_eq_self) simp_all
    then show ?thesis by (simp add: sint_word_ariths)
  qed
  have "grid_rows st (data s) (width s) (height s - 1) [] =
      Inr ([] @ map (\<lambda>r. map (\<lambda>c. b ! (r * nat (sint (width s)) + c) \<noteq> NUL) [0..<nat (sint (width s))])
                    (rev [0..<nat (sint (height s))]))"
    using b _ _ len
    by (rule grid_rows_eq) (use w h wh in \<open>simp_all add: h1\<close>)
  then show ?thesis
    by (simp add: semacode_grid_def andThen_def s nh)
qed

lemma to_s_of_encoded:
  assumes "encoded_symbol st p s b" and "Data_Get_Struct self st = Inr p"
  shows "semacode_to_s self st =
     Inr (Some (concat (map (\<lambda>r. map (\<lambda>c. bit_char (b ! (r * nat (sint (width s)) + c) \<noteq> NUL)) [0..<nat (sint (width s))] @ '','')
            (rev [0..<nat (sint (height s))]))))"
proof -
  from assms have s: "get_semacode p st = Inr s" and b: "get_chars (data s) st = Inr b"
    and w: "1 \<le> sint (width s)" and h: "1 \<le> sint (height s)"
    and wh: "sint (width s) * sint (height s) < 2 ^ 31"
    and len: "int (length b) = sint (width s) * sint (height s)"
    by (simp_all add: encoded_symbol_def)
  have pn: "p \<noteq> NULL" using s by (auto simp: get_semacode_def deref_def andThen_def split: if_splits)
  have dn: "data s \<noteq> NULL" using b by (auto simp: get_chars_def deref_def andThen_def split: if_splits)
  have h1: "sint (height s - 1) = sint (height s) - 1"
  proof -
    have "signed_take_bit 31 (sint (height s) - 1) = sint (height s) - 1"
      using h sint_lt [of "height s"] by (intro signed_take_bit_int_eq_self) simp_all
    then show ?thesis by (simp add: sint_word_ariths)
  qed
  have "str_rows st (data s) (width s) (height s - 1) [] =
      Inr ([] @ concat (map (\<lambda>r. map (\<lambda>c. bit_char (b ! (r * nat (sint (width s)) + c) \<noteq> NUL)) [0..<nat (sint (width s))] @ '','')
                    (rev [0..<nat (sint (height s))])))"
    using b _ _ len
    by (rule str_rows_eq) (use w h wh in \<open>simp_all add: h1\<close>)
  then show ?thesis
    using pn dn by (simp add: semacode_to_s_def andThen_def s assms(2))
qed

section \<open>One run of \<open>encode_string\<close>\<close>

lemma get_semacode_Inr:
  "get_semacode p st = Inr s \<longleftrightarrow> p \<noteq> NULL \<and> p \<notin> set (released st) \<and> mem st p = Some (Semacode s)"
  by (auto simp: get_semacode_def deref_def andThen_def split: option.splits cell.splits)

lemma get_chars_Inr:
  "get_chars p st = Inr b \<longleftrightarrow> p \<noteq> NULL \<and> p \<notin> set (released st) \<and> mem st p = Some (Chars b)"
  by (auto simp: get_chars_def deref_def andThen_def split: option.splits cell.splits)

lemma c_string_no_nul: "NUL \<notin> set (c_string b)"
  by (auto simp: c_string_def dest: set_takeWhileD)

lemma c_string_append_nul: "NUL \<notin> set xs \<Longrightarrow> c_string (xs @ NUL # ys) = xs"
  by (induction xs) (auto simp: c_string_def)

lemma strlen_terminated:
  assumes "L < length b" and "b ! L = NUL"
  shows "strlen b = Some (length (c_string b))" and "length (c_string b) \<le> L"
proof -
  have "NUL \<in> set b" using assms by (metis nth_mem)
  then show "strlen b = Some (length (c_string b))" by (simp add: strlen_def)
  show "length (c_string b) \<le> L"
  proof (rule ccontr)
    assume "\<not> length (c_string b) \<le> L"
    then have lt: "L < length (c_string b)" by simp
    then have "c_string b ! L = b ! L"
      by (simp add: c_string_def takeWhile_nth)
    moreover have "c_string b ! L \<in> set (c_string b)" using lt by simp
    ultimately show False using assms(2) c_string_no_nul [of b] by simp
  qed
qed

lemma strcat_buffer_space:
  "strcat_buffer b '' '' = (c_string b @ '' '') @ NUL # drop (length (c_string b) + 2) b"
proof -
  have "take (length (c_string b)) b = c_string b"
    by (simp add: c_string_def takeWhile_eq_take [symmetric])
  then show ?thesis by (simp add: strcat_buffer_def)
qed

lemma c_string_strcat_buffer: "c_string (strcat_buffer b '' '') = c_string b @ '' ''"
proof -
  have "NUL \<notin> set (c_string b @ '' '')" using c_string_no_nul [of b] by simp
  then show ?thesis unfolding strcat_buffer_space by (rule c_string_append_nul)
qed

lemma length_strcat_buffer:
  assumes "Suc (length (c_string b)) < length b"
  shows "length (strcat_buffer b '' '') = length b"
proof -
  have "length (c_string b) \<le> length b"
    by (simp add: c_string_def length_takeWhile_le)
  then show ?thesis using assms by (simp add: strcat_buffer_space)
qed

lemma strcat_buffer_payload:
  assumes "NUL \<notin> set payload"
  shows "strcat_buffer (payload @ NUL # c # rest) '' '' = payload @ '' '' @ NUL # rest"
    and "take (Suc (length payload)) (strcat_buffer (payload @ NUL # c # rest) '' '') = payload @ '' ''"
  using assms by (simp_all add: strcat_buffer_space c_string_append_nul)

lemma sint_length:
  assumes "int n < 2 ^ 31"
  shows "sint (word_of_nat n :: c_int) = int n"
proof -
  have "signed_take_bit 31 (int n) = int n"
    using assms by (intro signed_take_bit_int_eq_self) simp_all
  moreover have "sint (word_of_int (int n) :: c_int) = signed_take_bit 31 (int n)"
    by (simp only: sint_sbintrunc') simp
  ultimately show ?thesis by (simp only: of_int_of_nat_eq)
qed

text \<open>Lines 46 to 54: both buffers released, the structure cleared.\<close>

lemma release_previous:
  assumes "owns_buffers st p s"
  shows "andThen (get_semacode p st) (\<lambda>s.
        andThen (if data s \<noteq> NULL then c_free (data s) st else Inr st) (\<lambda>st1.
        andThen (get_semacode p st1) (\<lambda>s1.
        andThen (if encoding s1 \<noteq> NULL then c_free (encoding s1) st1 else Inr st1) (\<lambda>st2.
        andThen (put_semacode p zero_semacode st2) f)))) =
     f (st\<lparr>released := released st @ filter (\<lambda>a. a \<noteq> NULL) [data s, encoding s],
           mem := (mem st)(p \<mapsto> Semacode zero_semacode)\<rparr>)"
  using assms
  by (auto simp: owns_buffers_def live_def get_semacode_Inr get_semacode_def put_semacode_def
      deref_def c_free_def andThen_def store_def)

lemma strcat_message:
  assumes "get_chars msg st = Inr b" and "L < length b" and "b ! L = NUL" and "Suc L < length b"
  shows "c_strcat msg '' '' st = Inr (store msg (Chars (strcat_buffer b '' '')) st)"
proof -
  have "length (c_string b) + 1 < length b"
    using strlen_terminated(2) [OF assms(2,3)] assms(4) by simp
  then show ?thesis
    using assms(1) strlen_terminated(1) [OF assms(2,3)]
    by (simp add: c_strcat_def andThen_def)
qed

lemma init_message:
  assumes "get_semacode p st = Inr s" and "get_chars msg st = Inr b" and "NUL \<in> set b"
  shows "call_iec16022init lib p msg st =
     Inr (store p (Semacode (s\<lparr>width := fst (iec16022init lib (width s) (height s) (c_string b)),
                               height := snd (iec16022init lib (width s) (height s) (c_string b))\<rparr>)) st)"
  using assms by (simp add: call_iec16022init_def andThen_def strlen_def split: prod.splits)

lemma ecc200_message:
  assumes "get_semacode p st = Inr s" and "get_chars msg st = Inr b"
    and "sint n = int m" and "m \<le> length b"
  shows "call_iec16022ecc200 lib p n msg st =
     Inr (let r = iec16022ecc200 lib (width s) (height s) n (take m b);
              st1 = st\<lparr>ecc200_calls := ecc200_calls st @ [(n, take m b)]\<rparr>;
              (e, st2) = (case r_encoding r of None \<Rightarrow> (encoding s, st1) | Some c \<Rightarrow> c_alloc (Chars c) st1);
              (g, st3) = (case r_grid r of None \<Rightarrow> (NULL, st2) | Some c \<Rightarrow> c_alloc (Chars c) st2)
          in store p (Semacode \<lparr>width = r_width r, height = r_height r,
                              raw_encoded_length = r_raw_encoded_length r,
                              symbol_capacity = r_symbol_capacity r,
                              ecc_bytes = r_ecc_bytes r, encoding = e, data = g\<rparr>) st3)"
  using assms by (simp add: call_iec16022ecc200_def andThen_def Let_def split: prod.splits)

text \<open>
  Up to the call of the encoder: the memory in which \<open>iec16022ecc200\<close> is
  called has the previous buffers released, the structure cleared but for the
  dimensions \<open>iec16022init\<close> chose, and the message buffer with the space.
\<close>

lemma encode_string_run:
  assumes own: "owns_buffers st p s"
    and msg: "message_buffer st msg b L"
    and ne: "msg \<noteq> data s" "msg \<noteq> encoding s"
  shows "encode_string lib p (word_of_nat L) msg st =
     andThen (call_iec16022ecc200 lib p (word_of_nat L + 1) msg
       (st\<lparr>released := released st @ filter (\<lambda>a. a \<noteq> NULL) [data s, encoding s],
           mem := (mem st)
             (p \<mapsto> Semacode (zero_semacode
                    \<lparr>width := fst (iec16022init lib 0 0 (c_string b @ '' '')),
                     height := snd (iec16022init lib 0 0 (c_string b @ '' ''))\<rparr>),
              msg \<mapsto> Chars (strcat_buffer b '' ''))\<rparr>))
       (\<lambda>st6. Inr (p, st6))"
proof -
  define R where "R = released st @ filter (\<lambda>a. a \<noteq> NULL) [data s, encoding s]"
  define st3 where "st3 = st\<lparr>released := R, mem := (mem st)(p \<mapsto> Semacode zero_semacode)\<rparr>"
  define st4 where "st4 = store msg (Chars (strcat_buffer b '' '')) st3"
  define s5 where "s5 = zero_semacode
             \<lparr>width := fst (iec16022init lib 0 0 (c_string b @ '' '')),
              height := snd (iec16022init lib 0 0 (c_string b @ '' ''))\<rparr>"
  define st5 where "st5 = store p (Semacode s5) st4"
  from own have ps: "get_semacode p st = Inr s" by (simp add: owns_buffers_def)
  from msg have mb: "get_chars msg st = Inr b"
    and pe: "0 < L" and room: "Suc L < length b" and nul_at: "b ! L = NUL"
    and len: "int L + 1 < 2 ^ 31"
    by (simp_all add: message_buffer_def)
  have pm: "p \<noteq> msg" using ps mb by (auto simp: get_semacode_Inr get_chars_Inr)
  have p0: "p \<noteq> NULL" and m0: "msg \<noteq> NULL"
    using ps mb by (auto simp: get_semacode_Inr get_chars_Inr)
  have "sint (word_of_nat L :: c_int) = int L"
    using len by (intro sint_length) simp
  then have guard: "\<not> (word_of_nat L :: c_int) <s 1"
    using pe by (simp add: word_sless_alt)
  have mb3: "get_chars msg st3 = Inr b"
    using mb pm ne by (auto simp: get_chars_Inr st3_def R_def)
  have cat: "c_strcat msg '' '' st3 = Inr st4"
    unfolding st4_def using mb3 _ nul_at room by (rule strcat_message) (use room in simp)
  have ps4: "get_semacode p st4 = Inr zero_semacode"
    using ps pm own by (auto simp: get_semacode_Inr store_def owns_buffers_def st4_def st3_def R_def)
  have mb4: "get_chars msg st4 = Inr (strcat_buffer b '' '')"
    using mb3 by (auto simp: get_chars_Inr store_def st4_def)
  have nul: "NUL \<in> set (strcat_buffer b '' '')"
    by (simp add: strcat_buffer_space)
  have "call_iec16022init lib p msg st4 =
      Inr (store p (Semacode (zero_semacode
             \<lparr>width := fst (iec16022init lib (width zero_semacode) (height zero_semacode)
                              (c_string (strcat_buffer b '' ''))),
              height := snd (iec16022init lib (width zero_semacode) (height zero_semacode)
                              (c_string (strcat_buffer b '' '')))\<rparr>)) st4)"
    using ps4 mb4 nul by (rule init_message)
  moreover have "width zero_semacode = 0" "height zero_semacode = 0"
    by (simp_all add: zero_semacode_def)
  ultimately have ini: "call_iec16022init lib p msg st4 = Inr st5"
    by (simp only: st5_def s5_def c_string_strcat_buffer)
  have upd: "st5 =
       st\<lparr>released := released st @ filter (\<lambda>a. a \<noteq> NULL) [data s, encoding s],
           mem := (mem st)
             (p \<mapsto> Semacode (zero_semacode
                    \<lparr>width := fst (iec16022init lib 0 0 (c_string b @ '' '')),
                     height := snd (iec16022init lib 0 0 (c_string b @ '' ''))\<rparr>),
              msg \<mapsto> Chars (strcat_buffer b '' ''))\<rparr>"
    using pm by (simp add: st5_def st4_def st3_def s5_def R_def store_def fun_upd_twist)
  have "encode_string lib p (word_of_nat L) msg st =
      andThen (c_strcat msg '' '' st3) (\<lambda>st4.
        andThen (call_iec16022init lib p msg st4) (\<lambda>st5.
        andThen (call_iec16022ecc200 lib p (word_of_nat L + 1) msg st5) (\<lambda>st6.
        Inr (p, st6))))"
    unfolding encode_string_def st3_def R_def using p0 m0 guard
    by (simp only: release_previous [OF own] if_False simp_thms)
  also have "\<dots> = andThen (call_iec16022ecc200 lib p (word_of_nat L + 1) msg st5)
        (\<lambda>st6. Inr (p, st6))"
    by (simp add: cat ini andThen_def)
  finally show ?thesis by (simp only: upd)
qed

text \<open>The whole run: the pointer returned and the memory left.\<close>

lemma encode_string_call:
  assumes own: "owns_buffers st p s"
    and msg: "message_buffer st msg b L"
    and ne: "msg \<noteq> data s" "msg \<noteq> encoding s"
  shows "encode_string lib p (word_of_nat L) msg st =
     Inr (p,
       let wh = iec16022init lib 0 0 (c_string b @ '' '');
           n = word_of_nat L + 1;
           bytes = take (Suc L) (strcat_buffer b '' '');
           r = iec16022ecc200 lib (fst wh) (snd wh) n bytes;
           st1 = st\<lparr>released := released st @ filter (\<lambda>a. a \<noteq> NULL) [data s, encoding s],
                   mem := (mem st)(p \<mapsto> Semacode (zero_semacode\<lparr>width := fst wh, height := snd wh\<rparr>),
                                   msg \<mapsto> Chars (strcat_buffer b '' '')),
                   ecc200_calls := ecc200_calls st @ [(n, bytes)]\<rparr>;
           (e, st2) = (case r_encoding r of None \<Rightarrow> (NULL, st1) | Some c \<Rightarrow> c_alloc (Chars c) st1);
           (g, st3) = (case r_grid r of None \<Rightarrow> (NULL, st2) | Some c \<Rightarrow> c_alloc (Chars c) st2)
       in store p (Semacode \<lparr>width = r_width r, height = r_height r,
                            raw_encoded_length = r_raw_encoded_length r,
                            symbol_capacity = r_symbol_capacity r,
                            ecc_bytes = r_ecc_bytes r, encoding = e, data = g\<rparr>) st3)"
proof -
  define s5 where "s5 = zero_semacode
             \<lparr>width := fst (iec16022init lib 0 0 (c_string b @ '' '')),
              height := snd (iec16022init lib 0 0 (c_string b @ '' ''))\<rparr>"
  define st5 where "st5 = st\<lparr>released := released st @ filter (\<lambda>a. a \<noteq> NULL) [data s, encoding s],
           mem := (mem st)(p \<mapsto> Semacode s5, msg \<mapsto> Chars (strcat_buffer b '' ''))\<rparr>"
  define bytes where "bytes = take (Suc L) (strcat_buffer b '' '')"
  from own have ps: "get_semacode p st = Inr s" by (simp add: owns_buffers_def)
  from msg have mb: "get_chars msg st = Inr b"
    and room: "Suc L < length b" and nul_at: "b ! L = NUL"
    and len: "int L + 1 < 2 ^ 31"
    by (simp_all add: message_buffer_def)
  have pm: "p \<noteq> msg" using ps mb by (auto simp: get_semacode_Inr get_chars_Inr)
  have ps5: "get_semacode p st5 = Inr s5"
    using ps pm own by (auto simp: get_semacode_Inr owns_buffers_def st5_def)
  have mb5: "get_chars msg st5 = Inr (strcat_buffer b '' '')"
    using mb ne by (auto simp: get_chars_Inr st5_def)
  have "L < length b" using room by simp
  then have "Suc (length (c_string b)) < length b"
    using strlen_terminated(2) [OF _ nul_at] room by simp
  then have fits: "Suc L \<le> length (strcat_buffer b '' '')"
    using room by (simp add: length_strcat_buffer)
  have "sint (word_of_nat (Suc L) :: c_int) = int (Suc L)"
    using len by (intro sint_length) simp
  then have n: "sint (word_of_nat L + 1 :: c_int) = int (Suc L)"
    by (simp add: add.commute)
  have "encode_string lib p (word_of_nat L) msg st =
      andThen (call_iec16022ecc200 lib p (word_of_nat L + 1) msg st5) (\<lambda>st6. Inr (p, st6))"
    unfolding st5_def s5_def using own msg ne by (rule encode_string_run)
  also have "\<dots> = Inr (p,
       let r = iec16022ecc200 lib (width s5) (height s5) (word_of_nat L + 1) bytes;
           st1 = st5\<lparr>ecc200_calls := ecc200_calls st5 @ [(word_of_nat L + 1, bytes)]\<rparr>;
           (e, st2) = (case r_encoding r of None \<Rightarrow> (encoding s5, st1) | Some c \<Rightarrow> c_alloc (Chars c) st1);
           (g, st3) = (case r_grid r of None \<Rightarrow> (NULL, st2) | Some c \<Rightarrow> c_alloc (Chars c) st2)
       in store p (Semacode \<lparr>width = r_width r, height = r_height r,
                            raw_encoded_length = r_raw_encoded_length r,
                            symbol_capacity = r_symbol_capacity r,
                            ecc_bytes = r_ecc_bytes r, encoding = e, data = g\<rparr>) st3)"
    unfolding bytes_def
    by (simp only: ecc200_message [OF ps5 mb5 n fits]) (simp add: andThen_def)
  finally have run: "encode_string lib p (word_of_nat L) msg st = Inr (p,
       let r = iec16022ecc200 lib (width s5) (height s5) (word_of_nat L + 1) bytes;
           st1 = st5\<lparr>ecc200_calls := ecc200_calls st5 @ [(word_of_nat L + 1, bytes)]\<rparr>;
           (e, st2) = (case r_encoding r of None \<Rightarrow> (encoding s5, st1) | Some c \<Rightarrow> c_alloc (Chars c) st1);
           (g, st3) = (case r_grid r of None \<Rightarrow> (NULL, st2) | Some c \<Rightarrow> c_alloc (Chars c) st2)
       in store p (Semacode \<lparr>width = r_width r, height = r_height r,
                            raw_encoded_length = r_raw_encoded_length r,
                            symbol_capacity = r_symbol_capacity r,
                            ecc_bytes = r_ecc_bytes r, encoding = e, data = g\<rparr>) st3)" .
  have e5: "encoding s5 = NULL" "width s5 = fst (iec16022init lib 0 0 (c_string b @ '' ''))"
    "height s5 = snd (iec16022init lib 0 0 (c_string b @ '' ''))"
    by (simp_all add: s5_def zero_semacode_def)
  have st5': "st5\<lparr>ecc200_calls := ecc200_calls st5 @ [(word_of_nat L + 1, bytes)]\<rparr> =
      st\<lparr>released := released st @ filter (\<lambda>a. a \<noteq> NULL) [data s, encoding s],
         mem := (mem st)
           (p \<mapsto> Semacode (zero_semacode
                  \<lparr>width := fst (iec16022init lib 0 0 (c_string b @ '' '')),
                   height := snd (iec16022init lib 0 0 (c_string b @ '' ''))\<rparr>),
            msg \<mapsto> Chars (strcat_buffer b '' '')),
         ecc200_calls := ecc200_calls st @ [(word_of_nat L + 1, bytes)]\<rparr>"
    by (simp add: st5_def s5_def)
  show ?thesis
    unfolding run Let_def e5 bytes_def st5' [unfolded bytes_def] ..
qed

section \<open>Facts about the concrete run\<close>

lemma init_ok: "semacode_init demo_encoder 10 2 scene = Inr (10, after_init)"
  by (simp add: after_init_def model_defs word_sless_alt)

lemma after_init_encoded:
  "encoded_symbol after_init 9
     \<lparr>width = 2, height = 3, raw_encoded_length = 2, symbol_capacity = 3,
      ecc_bytes = 5, encoding = 11, data = 12\<rparr>
     [CHR 0x01, NUL, NUL, CHR 0x01, CHR 0x01, CHR 0x01]"
  by (simp add: encoded_symbol_def after_init_def model_defs word_sless_alt)

lemma scene_store: "Data_Get_Struct 10 scene = Inr 9" "get_semacode 9 scene = Inr zero_semacode"
  "Data_Get_Struct 10 after_init = Inr 9"
  by (simp_all add: after_init_def model_defs word_sless_alt)

lemma scene_owns: "owns_buffers scene 9 zero_semacode"
  by (simp add: owns_buffers_def model_defs)

lemma scene_payload: "message_buffer scene 1 [CHR ''A'', NUL, NUL] 1"
  by (simp add: message_buffer_def model_defs)

lemma scene_wf: "wf_world scene"
  by (simp add: wf_world_def model_defs)

lemma scene_message: "deref 2 scene = Inr (RString 1 1)"
  by (simp add: model_defs)

lemma after_init_owns:
  "owns_buffers after_init 9
     \<lparr>width = 2, height = 3, raw_encoded_length = 2, symbol_capacity = 3,
      ecc_bytes = 5, encoding = 11, data = 12\<rparr>"
  by (simp add: owns_buffers_def live_def after_init_def model_defs word_sless_alt)

lemma after_init_payload: "message_buffer after_init 3 [CHR ''B'', NUL, NUL] 1"
  by (simp add: message_buffer_def after_init_def model_defs word_sless_alt)

lemma after_init_message:
  "deref 4 after_init = Inr (RString 1 3)" "Data_Get_Struct 10 after_init = Inr 9"
  by (simp_all add: after_init_def model_defs word_sless_alt)

text \<open>
  An encoder object passed as the message is converted through its \<open>to_str\<close>,
  which is \<open>semacode_to_s\<close>: the encoded object yields a new String of its
  nine characters, the object that was never encoded yields \<open>nil\<close> and the
  conversion raises TypeError.
\<close>

lemma encoder_object_as_message:
  "map_sum id (\<lambda>((n, p), st). (n, p, mem st p, mem st 14)) (StringValue 10 after_init) =
     Inr (9, 13, Some (Chars (''11,01,10,'' @ [NUL, NUL])), Some (RString 9 13))"
  "map_sum id fst (StringValue 10 scene) = Inl TypeError"
  by (simp_all add: after_init_def model_defs word_sless_alt word_sle_eq str_rows.simps str_row.simps)

section \<open>The views of an encoded symbol\<close>

lemma rev_upt_map: "rev [0..<n] = map (\<lambda>r. n - 1 - r) [0..<n]"
  by (rule nth_equalityI) (simp_all add: rev_nth)

lemma comma_rows_nth:
  assumes "\<forall>row \<in> set g. length row = w" "r < length g" "c < w"
  shows "comma_rows g ! (r * (w + 1) + c) = bit_char (g ! r ! c)"
  using assms
proof (induction g arbitrary: r)
  case Nil
  then show ?case by simp
next
  case (Cons row g)
  show ?case
  proof (cases r)
    case 0
    with Cons.prems show ?thesis
      by (simp add: comma_rows_def nth_append)
  next
    case (Suc r')
    let ?line = "map bit_char row @ '',''"
    have len: "length ?line = w + 1"
      using Cons.prems(1) by simp
    have "comma_rows (row # g) ! (r * (w + 1) + c) =
        (?line @ comma_rows g) ! (length ?line + (r' * (w + 1) + c))"
    proof -
      have "r * (w + 1) + c = length ?line + (r' * (w + 1) + c)"
        using Suc len by simp
      moreover have "comma_rows (row # g) = ?line @ comma_rows g"
        by (simp add: comma_rows_def)
      ultimately show ?thesis by (simp only:)
    qed
    also have "\<dots> = comma_rows g ! (r' * (w + 1) + c)"
      by (rule nth_append_length_plus)
    also have "\<dots> = bit_char (g ! r' ! c)"
      using Cons.prems Suc by (intro Cons.IH) simp_all
    finally show ?thesis using Suc by simp
  qed
qed

lemma bit_char_1: "(bit_char v = CHR ''1'') = v"
  by (simp add: bit_char_def)

text \<open>
  C7. For an encoded symbol, \<open>semacode_grid\<close> returns as many rows as the
  height, each as long as the width, and the row at output position \<open>r\<close> holds
  the booleans of the internal buffer row \<open>height - 1 - r\<close> (the byte at index
  \<open>row * width + col\<close> is a set module when it is not zero): the first row
  returned is the topmost one.
\<close>

theorem semacode_grid_top_row_first:
  assumes "encoded_symbol st p s b"
  shows "semacode_grid p st =
     Inr (map (\<lambda>r. map (\<lambda>c. b ! ((nat (sint (height s)) - 1 - r) * nat (sint (width s)) + c) \<noteq> NUL)
                      [0..<nat (sint (width s))])
            [0..<nat (sint (height s))])"
  by (simp add: grid_of_encoded [OF assms] rev_upt_map comp_def)

theorem semacode_grid_top_row_first_witness:
  "semacode_grid 9 after_init = Inr [[True, True], [False, True], [True, False]]"
  using semacode_grid_top_row_first [OF after_init_encoded]
  by (simp add: upt_rec)

text \<open>
  C8. For an encoded symbol, \<open>semacode_to_s\<close> returns one group per row, the
  groups in the order of the rows of \<open>semacode_grid\<close> (top row first), each
  group of width characters \<open>'1'\<close> (set) or \<open>'0'\<close> (clear) and each followed by
  one comma, the last group too. For a store whose pointer or whose \<open>data\<close> is
  null it returns \<open>nil\<close>.
\<close>

theorem semacode_to_s_format:
  assumes "Data_Get_Struct self st = Inr p"
  shows "(encoded_symbol st p s b \<longrightarrow>
          semacode_to_s self st =
            Inr (Some (concat (map (\<lambda>r. map (\<lambda>c. bit_char (b ! ((nat (sint (height s)) - 1 - r) * nat (sint (width s)) + c) \<noteq> NUL))
                                          [0..<nat (sint (width s))] @ '','')
                           [0..<nat (sint (height s))]))) \<and>
          semacode_to_s self st = map_sum id (\<lambda>g. Some (comma_rows g)) (semacode_grid p st)) \<and>
         (p = NULL \<or> (get_semacode p st = Inr s \<and> data s = NULL) \<longrightarrow>
          semacode_to_s self st = Inr None)"
proof (intro conjI impI)
  assume e: "encoded_symbol st p s b"
  show "semacode_to_s self st =
            Inr (Some (concat (map (\<lambda>r. map (\<lambda>c. bit_char (b ! ((nat (sint (height s)) - 1 - r) * nat (sint (width s)) + c) \<noteq> NUL))
                                          [0..<nat (sint (width s))] @ '','')
                           [0..<nat (sint (height s))])))"
    by (simp add: to_s_of_encoded [OF e assms] rev_upt_map comp_def)
  show "semacode_to_s self st = map_sum id (\<lambda>g. Some (comma_rows g)) (semacode_grid p st)"
    by (simp add: to_s_of_encoded [OF e assms] grid_of_encoded [OF e] comma_rows_def comp_def)
next
  assume "p = NULL \<or> (get_semacode p st = Inr s \<and> data s = NULL)"
  then show "semacode_to_s self st = Inr None"
    using assms by (auto simp: semacode_to_s_def andThen_def)
qed

theorem semacode_to_s_format_witness:
  "semacode_to_s 10 after_init = Inr (Some ''11,01,10,'') \<and> semacode_to_s 10 scene = Inr None"
proof
  show "semacode_to_s 10 after_init = Inr (Some ''11,01,10,'')"
    using semacode_to_s_format [OF scene_store(3)] after_init_encoded
    by (simp add: upt_rec bit_char_def)
  have "data zero_semacode = NULL" by (simp add: zero_semacode_def)
  then show "semacode_to_s 10 scene = Inr None"
    using semacode_to_s_format [OF scene_store(1), of zero_semacode] scene_store(2)
    by simp
qed

text \<open>
  C9. For an encoded symbol and a row \<open>r\<close> and column \<open>c\<close> within bounds,
  the character of the string view at row \<open>r\<close>, column \<open>c\<close> (position
  \<open>r * (width + 1) + c\<close>, each row being followed by its comma) is \<open>'1'\<close>
  exactly when the grid view is true at \<open>[r][c]\<close>.
\<close>

theorem views_agree:
  assumes "Data_Get_Struct self st = Inr p" and "encoded_symbol st p s b"
    and "r < nat (sint (height s))" and "c < nat (sint (width s))"
  shows "\<exists>g str. semacode_grid p st = Inr g \<and> semacode_to_s self st = Inr (Some str) \<and>
           ((str ! (r * (nat (sint (width s)) + 1) + c) = CHR ''1'') = (g ! r ! c))"
proof -
  define g where "g = map (\<lambda>r. map (\<lambda>c. b ! (r * nat (sint (width s)) + c) \<noteq> NUL) [0..<nat (sint (width s))])
            (rev [0..<nat (sint (height s))])"
  have grid: "semacode_grid p st = Inr g"
    unfolding g_def using assms(2) by (rule grid_of_encoded)
  have str: "semacode_to_s self st = Inr (Some (comma_rows g))"
    by (simp add: to_s_of_encoded [OF assms(2,1)] g_def comma_rows_def comp_def)
  have "\<forall>row \<in> set g. length row = nat (sint (width s))" by (auto simp: g_def)
  moreover have "r < length g" using assms(3) by (simp add: g_def)
  ultimately have "comma_rows g ! (r * (nat (sint (width s)) + 1) + c) = bit_char (g ! r ! c)"
    using assms(4) by (rule comma_rows_nth)
  then have "(comma_rows g ! (r * (nat (sint (width s)) + 1) + c) = CHR ''1'') = (g ! r ! c)"
    by (simp add: bit_char_1)
  with grid str show ?thesis by blast
qed

theorem views_agree_witness:
  "\<exists>g str. semacode_grid 9 after_init = Inr g \<and> semacode_to_s 10 after_init = Inr (Some str) \<and>
      ((str ! 4 = CHR ''1'') = (g ! 1 ! 1))"
  using views_agree [OF scene_store(3) after_init_encoded, of 1 1]
  by simp

section \<open>The store across \<open>encode\<close> and \<open>free\<close>\<close>

text \<open>
  \<open>encode_string\<close> by itself, as \<open>initialize\<close> calls it, rejects a length
  below 1 before it touches anything.
\<close>

lemma encode_string_rejects_empty:
  "message_length <s 1 \<Longrightarrow> encode_string lib semacode message_length message st = Inr (NULL, st)"
  by (simp add: encode_string_def)

lemma semacode_init_empty_payload:
  assumes "deref message st = Inr (RString 0 ptr)" and "Data_Get_Struct self st = Inr p"
  shows "semacode_init lib self message st = Inr (self, st)"
  using assms
  by (simp add: semacode_init_def responds_to_s_def StringValue_def andThen_def
        encode_string_def word_sless_alt)

text \<open>
  \<open>semacode_encode\<close> on a store that has a grid, with any String of at least
  one byte: the grid is released by \<open>semacode_encode\<close>, the pointer stays in
  the structure, and \<open>encode_string\<close> releases it again.
\<close>

lemma semacode_encode_double_free:
  assumes "deref message st = Inr (RString len ptr)" and "message \<noteq> data s"
    and "Data_Get_Struct self st = Inr p"
    and "get_semacode p st = Inr s" and "live st (data s)" and "data s \<noteq> p"
    and "ptr \<noteq> NULL" and "\<not> (word_of_nat len :: c_int) <s 1"
  shows "semacode_encode lib self message st = Inl (DoubleFree (data s))"
proof -
  from assms(4) have p: "p \<noteq> NULL" "p \<notin> set (released st)" "mem st p = Some (Semacode s)"
    by (simp_all add: get_semacode_Inr)
  from assms(5) have d: "data s \<noteq> NULL" "mem st (data s) \<noteq> None" "data s \<notin> set (released st)"
    by (simp_all add: live_def)
  define st1 where "st1 = st\<lparr>released := released st @ [data s]\<rparr>"
  have f: "c_free (data s) st = Inr st1"
    using d by (simp add: c_free_def st1_def)
  have r: "responds_to_s message st = Inr True"
    using assms(1) by (simp add: responds_to_s_def andThen_def)
  have "deref message st1 = Inr (RString len ptr)"
    using assms(1,2) by (auto simp: deref_def st1_def split: if_splits)
  then have sv: "StringValue message st1 = Inr ((len, ptr), st1)"
    by (simp add: StringValue_def andThen_def)
  have g: "get_semacode p st1 = Inr s"
    using p assms(6) by (simp add: get_semacode_Inr st1_def)
  have "data s \<in> set (released st1)" by (simp add: st1_def)
  then have e: "encode_string lib p (word_of_nat len) ptr st1 = Inl (DoubleFree (data s))"
    using p(1) assms(7,8) d(1) g by (simp add: encode_string_def andThen_def c_free_def)
  show ?thesis
    using d(1) by (simp add: semacode_encode_def andThen_def r assms(3,4) f sv e)
qed

text \<open>
  \<open>encode_string\<close> called on its own releases each previous buffer once,
  whatever the encoder returns.
\<close>

lemma encode_string_releases_once:
  assumes "owns_buffers st p s" and "message_buffer st msg b L"
    and "msg \<noteq> data s" and "msg \<noteq> encoding s"
  shows "\<exists>st'. encode_string lib p (word_of_nat L) msg st = Inr (p, st') \<and>
           released st' = released st @ filter (\<lambda>a. a \<noteq> NULL) [data s, encoding s]"
  by (simp add: encode_string_call [OF assms] Let_def c_alloc_def store_def
        split: option.split prod.split)

text \<open>
  C1. Re-encoding a store that is already encoded should release the previous
  bits buffer and the previous codewords buffer exactly once each. In the run
  \<open>initialize("A")\<close> then \<open>encode("B")\<close> the bits buffer, block 12, is passed to
  \<open>free\<close> twice.
\<close>

theorem reencode_releases_data_twice:
  "semacode_init demo_encoder 10 2 scene = Inr (10, after_init) \<and>
   semacode_encode demo_encoder 10 4 after_init = Inl (DoubleFree 12)"
  by (simp add: after_init_def model_defs word_sless_alt)

text \<open>
  C2. Encoding a zero-length payload should be rejected with the store and its
  buffers untouched. In the run \<open>initialize("A")\<close> then \<open>encode("")\<close>,
  \<open>semacode_encode\<close> releases the bits buffer before \<open>encode_string\<close> rejects
  the payload, and \<open>semacode_grid\<close> then reads the released buffer.
\<close>

theorem encode_empty_payload_releases_data:
  "semacode_encode demo_encoder 10 6 after_init = Inl (UseAfterFree 12)"
  by (simp add: after_init_def model_defs word_sless_alt word_sle_eq grid_rows.simps grid_row.simps)

text \<open>
  C3. Destroying a store should reset the whole state and be harmless when
  repeated. After \<open>semacode_free\<close> on the encoded store the structure still
  holds both buffer pointers (only its first bytes were cleared), and a second
  \<open>semacode_free\<close> reads the released structure.
\<close>

theorem second_destroy_reads_released_store:
  "andThen (semacode_free LP64 9 after_init) (semacode_free LP64 9) = Inl (UseAfterFree 9) \<and>
   andThen (semacode_free ILP32 9 after_init) (semacode_free ILP32 9) = Inl (UseAfterFree 9) \<and>
   map_sum id (\<lambda>st. mem st 9) (semacode_free LP64 9 after_init) =
     Inr (Some (Semacode \<lparr>width = 0, height = 0, raw_encoded_length = 2,
       symbol_capacity = 3, ecc_bytes = 5, encoding = 11, data = 12\<rparr>))"
  by (simp add: after_init_def model_defs word_sless_alt)

text \<open>
  C4. Every read accessor should return an absent or empty value on a store
  that was never encoded. \<open>semacode_encoded\<close> passes the null \<open>encoding\<close>
  pointer to \<open>rb_str_new2\<close>, which raises ArgumentError; the other accessors
  return 0 or \<open>nil\<close>.
\<close>

theorem encoding_accessor_raises_on_empty_store:
  "semacode_encoded 10 scene = Inl ArgumentError"
  by (simp add: model_defs)

lemma empty_store_accessors:
  assumes "Data_Get_Struct self st = Inr p" and "get_semacode p st = Inr zero_semacode"
  shows "semacode_width self st = Inr 0" and "semacode_height self st = Inr 0"
    and "semacode_length self st = Inr 0"
    and "semacode_raw_encoded_length self st = Inr 0"
    and "semacode_symbol_size self st = Inr 0" and "semacode_ecc_bytes self st = Inr 0"
    and "semacode_data self st = Inr None" and "semacode_to_s self st = Inr None"
    and "semacode_encoded self st = Inl ArgumentError"
  using assms
  by (simp_all add: semacode_width_def semacode_height_def semacode_length_def
      semacode_raw_encoded_length_def semacode_symbol_size_def semacode_ecc_bytes_def
      int_field_def semacode_data_def semacode_to_s_def semacode_encoded_def rb_str_new2_def
      andThen_def zero_semacode_def)

text \<open>
  C5. When the external encoder returns no grid, \<open>encode_string\<close> has released
  the previous buffers once each and leaves the store empty, not stale: \<open>data\<close>
  is null, and \<open>encoding\<close> is null whenever the encoder handed back no encoding
  buffer. But it does not fail: it returns the store pointer as it does on
  success, and \<open>semacode_init\<close>, called with the String of that payload,
  returns \<open>self\<close> with the store so left.
\<close>

theorem failed_encode_leaves_store_empty:
  assumes "owns_buffers st p s" and "message_buffer st msg b L"
    and "msg \<noteq> data s" and "msg \<noteq> encoding s"
    and "r_grid (iec16022ecc200 lib (fst (iec16022init lib 0 0 (c_string b @ '' '')))
                  (snd (iec16022init lib 0 0 (c_string b @ '' '')))
                  (word_of_nat L + 1) (take (Suc L) (strcat_buffer b '' ''))) = None"
  shows "\<exists>st' s'. encode_string lib p (word_of_nat L) msg st = Inr (p, st') \<and>
           p \<noteq> NULL \<and> get_semacode p st' = Inr s' \<and> data s' = NULL \<and>
           (r_encoding (iec16022ecc200 lib (fst (iec16022init lib 0 0 (c_string b @ '' '')))
                  (snd (iec16022init lib 0 0 (c_string b @ '' '')))
                  (word_of_nat L + 1) (take (Suc L) (strcat_buffer b '' ''))) = None
              \<longrightarrow> encoding s' = NULL) \<and>
           released st' = released st @ filter (\<lambda>a. a \<noteq> NULL) [data s, encoding s] \<and>
           (deref message st = Inr (RString L msg) \<and> Data_Get_Struct self st = Inr p
              \<longrightarrow> semacode_init lib self message st = Inr (self, st'))"
proof -
  from assms(1) have "get_semacode p st = Inr s" "data s \<noteq> p" "encoding s \<noteq> p"
    by (simp_all add: owns_buffers_def)
  then have p: "p \<noteq> NULL" "p \<notin> set (released st)" "data s \<noteq> p" "encoding s \<noteq> p"
    by (simp_all add: get_semacode_Inr)
  define wh where "wh = iec16022init lib 0 0 (c_string b @ '' '')"
  define bytes where "bytes = take (Suc L) (strcat_buffer b '' '')"
  define r where "r = iec16022ecc200 lib (fst wh) (snd wh) (word_of_nat L + 1) bytes"
  define st1 where "st1 = st\<lparr>released := released st @ filter (\<lambda>a. a \<noteq> NULL) [data s, encoding s],
                   mem := (mem st)(p \<mapsto> Semacode (zero_semacode\<lparr>width := fst wh, height := snd wh\<rparr>),
                                   msg \<mapsto> Chars (strcat_buffer b '' '')),
                   ecc200_calls := ecc200_calls st @ [(word_of_nat L + 1, bytes)]\<rparr>"
  define st' where "st' =
     (case (case r_encoding r of None \<Rightarrow> (NULL, st1) | Some c \<Rightarrow> c_alloc (Chars c) st1) of
        (e, st2) \<Rightarrow>
          (case (case r_grid r of None \<Rightarrow> (NULL, st2) | Some c \<Rightarrow> c_alloc (Chars c) st2) of
             (g, st3) \<Rightarrow>
               store p (Semacode \<lparr>width = r_width r, height = r_height r,
                            raw_encoded_length = r_raw_encoded_length r,
                            symbol_capacity = r_symbol_capacity r,
                            ecc_bytes = r_ecc_bytes r, encoding = e, data = g\<rparr>) st3))"
  have fail: "r_grid r = None"
    using assms(5) by (simp add: r_def wh_def bytes_def)
  have es: "encode_string lib p (word_of_nat L) msg st = Inr (p, st')"
    unfolding st'_def st1_def r_def wh_def bytes_def
    by (simp only: encode_string_call [OF assms(1-4)] Let_def)
  have init: "semacode_init lib self message st = Inr (self, st')"
    if "deref message st = Inr (RString L msg)" "Data_Get_Struct self st = Inr p"
    using that es by (simp add: semacode_init_def responds_to_s_def StringValue_def andThen_def)
  have rel1: "released st1 = released st @ filter (\<lambda>a. a \<noteq> NULL) [data s, encoding s]"
    by (simp add: st1_def)
  have "\<exists>s'. get_semacode p st' = Inr s' \<and> data s' = NULL \<and>
           (r_encoding r = None \<longrightarrow> encoding s' = NULL) \<and>
           released st' = released st @ filter (\<lambda>a. a \<noteq> NULL) [data s, encoding s]"
    using p fail rel1
    by (cases "r_encoding r")
       (auto simp: st'_def c_alloc_def store_def get_semacode_Inr)
  then obtain s' where s': "get_semacode p st' = Inr s'" "data s' = NULL"
      "r_encoding r = None \<longrightarrow> encoding s' = NULL"
      "released st' = released st @ filter (\<lambda>a. a \<noteq> NULL) [data s, encoding s]"
    by (elim exE conjE)
  have "encode_string lib p (word_of_nat L) msg st = Inr (p, st') \<and>
           p \<noteq> NULL \<and> get_semacode p st' = Inr s' \<and> data s' = NULL \<and>
           (r_encoding r = None \<longrightarrow> encoding s' = NULL) \<and>
           released st' = released st @ filter (\<lambda>a. a \<noteq> NULL) [data s, encoding s] \<and>
           (deref message st = Inr (RString L msg) \<and> Data_Get_Struct self st = Inr p
              \<longrightarrow> semacode_init lib self message st = Inr (self, st'))"
    using es p(1) s' init by simp
  then show ?thesis
    unfolding r_def wh_def bytes_def by (intro exI)
qed

theorem failed_encode_leaves_store_empty_witness:
  "\<exists>st' s'. encode_string failing_encoder 9 1 3 after_init = Inr (9, st') \<and>
      get_semacode 9 st' = Inr s' \<and> data s' = NULL \<and> encoding s' = NULL \<and>
      released st' = [12, 11] \<and>
      semacode_init failing_encoder 10 4 after_init = Inr (10, st')"
proof -
  have "released after_init = []"
    by (simp add: after_init_def model_defs word_sless_alt)
  then show ?thesis
    using failed_encode_leaves_store_empty
      [OF after_init_owns after_init_payload, of failing_encoder 4 10]
      after_init_message
    by (simp add: failing_encoder_def)
qed

text \<open>
  With the failing encoder, \<open>encode_string\<close> returns the structure, where it
  returns the null pointer for a payload it rejects, and \<open>semacode_init\<close>
  returns \<open>self\<close>.
\<close>

theorem failed_encode_reports_success:
  "map_sum id fst (encode_string failing_encoder 9 1 1 scene) = Inr 9 \<and>
   map_sum id fst (encode_string failing_encoder 9 0 5 scene) = Inr NULL \<and>
   map_sum id fst (semacode_init failing_encoder 10 2 scene) = Inr 10"
  by (simp add: model_defs word_sless_alt)

text \<open>
  \<open>semacode_encode\<close> with the failing encoder goes on to \<open>semacode_grid\<close>,
  which reads through the null \<open>data\<close>.
\<close>

lemma failed_encode_then_grid_null_deref:
  "semacode_encode failing_encoder 10 4 scene = Inl NullDeref"
  by (simp add: model_defs word_sless_alt word_sle_eq grid_rows.simps grid_row.simps)

text \<open>
  For a payload that has no NUL byte, the external encoder is called once, with
  the length \<open>L + 1\<close> and the bytes of the payload followed by one space.
\<close>

lemma encode_string_pads_payload:
  assumes "owns_buffers st p s"
    and "message_buffer st msg (payload @ NUL # c # rest) (length payload)"
    and "NUL \<notin> set payload"
    and "msg \<noteq> data s" and "msg \<noteq> encoding s"
  shows "\<exists>st'. encode_string lib p (word_of_nat (length payload)) msg st = Inr (p, st') \<and>
           ecc200_calls st' =
             ecc200_calls st @ [(word_of_nat (length payload + 1), payload @ '' '')] \<and>
           sint (word_of_nat (length payload + 1) :: c_int) = int (length payload) + 1"
proof -
  have "int (length payload + 1) < 2 ^ 31"
    using assms(2) by (simp add: message_buffer_def)
  then have "sint (word_of_nat (length payload + 1) :: c_int) = int (length payload + 1)"
    by (rule sint_length)
  then show ?thesis
    by (simp add: encode_string_call [OF assms(1,2,4,5)] strcat_buffer_payload [OF assms(3)]
          Let_def c_alloc_def store_def add.commute
          split: option.split prod.split)
qed

text \<open>
  C6. Every non-empty payload of \<open>L\<close> bytes should reach the external encoder
  followed by exactly one space, with the length \<open>L + 1\<close>. For the three bytes
  \<open>a\<close>, NUL, \<open>b\<close>, \<open>strcat\<close> writes the space over the NUL inside the payload
  and a NUL over \<open>b\<close>: the encoder is given the length 4 and the bytes
  \<open>a\<close>, space, NUL, NUL.
\<close>

theorem payload_with_nul_not_padded:
  "map_sum id (\<lambda>(p, st). ecc200_calls st) (encode_string demo_encoder 9 3 7 scene) =
     Inr [(4, [CHR ''a'', CHR '' '', NUL, NUL])]"
  by (simp add: model_defs word_sless_alt)

text \<open>
  C10. \<open>semacode_init\<close> with a non-empty payload writes into the buffer the
  caller's String points to: a space over the first NUL of the buffer (the
  terminator, when the payload has no NUL byte) and a new NUL after it. The
  String object is left as it was, with its recorded length.
\<close>

theorem semacode_init_writes_callers_buffer:
  assumes "deref message st = Inr (RString L msg)"
    and "Data_Get_Struct self st = Inr p"
    and "owns_buffers st p s" and "message_buffer st msg b L"
    and "msg \<noteq> data s" and "msg \<noteq> encoding s" and "wf_world st"
  shows "\<exists>st'. semacode_init lib self message st = Inr (self, st') \<and>
           mem st' msg = Some (Chars (strcat_buffer b '' '')) \<and>
           mem st' message = Some (RString L msg)"
proof -
  from assms(1) have m1: "mem st message = Some (RString L msg)"
    by (auto simp: deref_def split: if_splits option.splits)
  from assms(4) have m2: "mem st msg = Some (Chars b)"
    by (simp add: message_buffer_def get_chars_Inr)
  from assms(3) have m3: "mem st p = Some (Semacode s)"
    by (simp add: owns_buffers_def get_semacode_Inr)
  have "\<not> brk st \<le> message" "\<not> brk st \<le> msg"
    using assms(7) m1 m2 by (auto simp: wf_world_def)
  then have lt: "message < brk st" "msg < brk st"
    by simp_all
  have ne: "message \<noteq> p" "message \<noteq> msg" "msg \<noteq> p"
    using m1 m2 m3 by auto
  define wh where "wh = iec16022init lib 0 0 (c_string b @ '' '')"
  define bytes where "bytes = take (Suc L) (strcat_buffer b '' '')"
  define r where "r = iec16022ecc200 lib (fst wh) (snd wh) (word_of_nat L + 1) bytes"
  define st1 where "st1 = st\<lparr>released := released st @ filter (\<lambda>a. a \<noteq> NULL) [data s, encoding s],
                   mem := (mem st)(p \<mapsto> Semacode (zero_semacode\<lparr>width := fst wh, height := snd wh\<rparr>),
                                   msg \<mapsto> Chars (strcat_buffer b '' '')),
                   ecc200_calls := ecc200_calls st @ [(word_of_nat L + 1, bytes)]\<rparr>"
  define st' where "st' =
     (case (case r_encoding r of None \<Rightarrow> (NULL, st1) | Some c \<Rightarrow> c_alloc (Chars c) st1) of
        (e, st2) \<Rightarrow>
          (case (case r_grid r of None \<Rightarrow> (NULL, st2) | Some c \<Rightarrow> c_alloc (Chars c) st2) of
             (g, st3) \<Rightarrow>
               store p (Semacode \<lparr>width = r_width r, height = r_height r,
                            raw_encoded_length = r_raw_encoded_length r,
                            symbol_capacity = r_symbol_capacity r,
                            ecc_bytes = r_ecc_bytes r, encoding = e, data = g\<rparr>) st3))"
  have es: "encode_string lib p (word_of_nat L) msg st = Inr (p, st')"
    unfolding st'_def st1_def r_def wh_def bytes_def
    by (simp only: encode_string_call [OF assms(3-6)] Let_def)
  have init: "semacode_init lib self message st = Inr (self, st')"
    using assms(1,2) es
    by (simp add: semacode_init_def responds_to_s_def StringValue_def andThen_def)
  have b1: "brk st1 = brk st" and m11: "mem st1 msg = Some (Chars (strcat_buffer b '' ''))"
    and m12: "mem st1 message = Some (RString L msg)"
    using ne m1 by (simp_all add: st1_def)
  have "mem st' msg = Some (Chars (strcat_buffer b '' '')) \<and>
        mem st' message = Some (RString L msg)"
    using lt ne b1 m11 m12
    by (cases "r_encoding r"; cases "r_grid r") (simp_all add: st'_def c_alloc_def store_def)
  with init show ?thesis by blast
qed

theorem semacode_init_writes_callers_buffer_witness:
  "\<exists>st'. semacode_init demo_encoder 10 2 scene = Inr (10, st') \<and>
      mem st' 1 = Some (Chars [CHR ''A'', CHR '' '', NUL]) \<and> mem st' 2 = Some (RString 1 1)"
  using semacode_init_writes_callers_buffer
    [OF scene_message scene_store(1) scene_owns scene_payload _ _ scene_wf, of demo_encoder]
  by (simp add: zero_semacode_def strcat_buffer_def c_string_def)

text \<open>
  Read through its length, the caller's String is \<open>"A"\<close> before and after
  \<open>initialize\<close>, not \<open>"A "\<close>.
\<close>

theorem string_object_not_extended:
  "semacode_init demo_encoder 10 2 scene = Inr (10, after_init) \<and>
   RSTRING_bytes 2 scene = Inr ''A'' \<and> RSTRING_bytes 2 after_init = Inr ''A'' \<and>
   RSTRING_bytes 2 after_init \<noteq> Inr ''A ''"
  by (simp add: after_init_def model_defs word_sless_alt)

end
